theory Spec2Isabelle
  imports Main
begin

section \<open>JavaScript values\<close>

text \<open>
  The server in \<^verbatim>\<open>src/server/index.js\<close> keeps its todos as plain objects whose
  \<^verbatim>\<open>title\<close>, \<^verbatim>\<open>description\<close> and \<^verbatim>\<open>completed\<close> properties hold whatever JSON value
  the request body carried: nothing but the truthiness of \<^verbatim>\<open>title\<close> is checked. The
  values that \<^verbatim>\<open>express.json()\<close> can produce are therefore modelled as they are.
  Numbers are modelled by the integers: the only arithmetic the handlers do is
  \<^verbatim>\<open>nextId++\<close> and the comparison \<^verbatim>\<open>t.id === id\<close>, which are exact on doubles below
  \<open>2^53\<close>; fractional values behave like any non-zero number in every test made here.
  What \<^verbatim>\<open>parseInt\<close> returns is rounded to a double, as the built-in does.
  A destructured variable that may be \<^verbatim>\<open>undefined\<close> is a \<open>json option\<close>.
\<close>

datatype json =
    JNull
  | JBool bool
  | JNum int
  | JStr string
  | JArr "json list"
  | JObj "(string \<times> json) list"

text \<open>ToBoolean: \<^verbatim>\<open>null\<close>, \<^verbatim>\<open>false\<close>, \<^verbatim>\<open>0\<close> and \<^verbatim>\<open>""\<close> are falsy; arrays and objects are truthy.\<close>

fun truthy :: "json \<Rightarrow> bool" where
  "truthy JNull = False"
| "truthy (JBool b) = b"
| "truthy (JNum n) = (n \<noteq> 0)"
| "truthy (JStr s) = (s \<noteq> [])"
| "truthy (JArr xs) = True"
| "truthy (JObj kvs) = True"

text \<open>
  ToString, as a template literal applies it, throws a TypeError on some values. An object
  parsed from JSON converts through \<^verbatim>\<open>Object.prototype.toString\<close> unless it has a property
  \<^verbatim>\<open>toString\<close> of its own, which is never callable; \<^verbatim>\<open>valueOf\<close> then gives back the object
  and the conversion throws. An array joins the conversions of its elements. \<open>printable v\<close>
  says that the conversion of \<open>v\<close> returns.
\<close>

fun printable :: "json \<Rightarrow> bool" where
  "printable JNull = True"
| "printable (JBool b) = True"
| "printable (JNum n) = True"
| "printable (JStr s) = True"
| "printable (JArr xs) = list_all printable xs"
| "printable (JObj kvs) = (''toString'' \<notin> set (map fst kvs))"

text \<open>
  The result of \<^verbatim>\<open>parseInt\<close>: \<^verbatim>\<open>NaN\<close>, an integer that is a double, or an infinity.
\<close>

datatype jsnumber = NaN | Finite int | PosInfinity | NegInfinity

type_synonym timestamp = string

section \<open>The built-in \<^verbatim>\<open>parseInt\<close>\<close>

text \<open>
  \<^verbatim>\<open>parseInt(string)\<close> with no radix, after ECMA-262: leading white space is skipped, one
  sign is read, a prefix \<^verbatim>\<open>0x\<close> or \<^verbatim>\<open>0X\<close> switches to radix 16, the longest run of digits
  of the radix is taken, and an empty run gives \<^verbatim>\<open>NaN\<close>. The value of the digits is
  rounded to the nearest double, ties to even, and is an infinity from \<open>2^1024\<close> on.
  (Beyond 20 significant decimal digits ECMA-262 also lets an implementation read the
  further digits as 0; the digits are read as they are here.) A character of a string is
  a code unit below 256; the white space among these is TAB, LF, VT, FF, CR, SP and the
  no-break space.
\<close>

definition is_space :: "char \<Rightarrow> bool" where
  "is_space c = (c = CHR 0x09 \<or> c = CHR 0x0A \<or> c = CHR 0x0B \<or> c = CHR 0x0C
       \<or> c = CHR 0x0D \<or> c = CHR '' '' \<or> c = CHR 0xA0)"

definition digit_value :: "char \<Rightarrow> nat option" where
  "digit_value c =
     (let k = (of_char c :: nat) in
      if 48 \<le> k \<and> k \<le> 57 then Some (k - 48)
      else if 97 \<le> k \<and> k \<le> 122 then Some (k - 87)
      else if 65 \<le> k \<and> k \<le> 90 then Some (k - 55)
      else None)"

definition radix_digit :: "nat \<Rightarrow> char \<Rightarrow> bool" where
  "radix_digit R c = (case digit_value c of None \<Rightarrow> False | Some d \<Rightarrow> d < R)"

definition digits_value :: "nat \<Rightarrow> string \<Rightarrow> int" where
  "digits_value R Z =
     foldl (\<lambda>acc c. acc * int R + (case digit_value c of None \<Rightarrow> 0 | Some d \<Rightarrow> int d)) 0 Z"

definition has_hex_prefix :: "string \<Rightarrow> bool" where
  "has_hex_prefix S = (take 2 S = ''0x'' \<or> take 2 S = ''0X'')"

text \<open>The number of binary digits of a positive integer.\<close>

function bitlen :: "int \<Rightarrow> nat" where
  "bitlen n = (if n \<le> 0 then 0 else Suc (bitlen (n div 2)))"
  by pat_completeness auto
termination
  by (relation "measure nat") auto

declare bitlen.simps [simp del]

text \<open>
  The double nearest to a non-negative integer, \<open>None\<close> for infinity: the integers up to
  \<open>2^53\<close> are doubles; a larger one keeps its 53 leading binary digits, rounded on the
  rest.
\<close>

definition to_double :: "int \<Rightarrow> int option" where
  "to_double n =
     (if n \<le> 2 ^ 53 then Some n
      else
        let e = bitlen n - 53;
            q = n div 2 ^ e;
            r = n mod 2 ^ e;
            h = 2 ^ (e - 1);
            q' = (if h < r \<or> (r = h \<and> odd q) then q + 1 else q)
        in if 2 ^ 1024 \<le> q' * 2 ^ e then None else Some (q' * 2 ^ e))"

text \<open>What is left of the input after the leading white space and one sign are removed.\<close>

definition strip_sign :: "string \<Rightarrow> string" where
  "strip_sign inputString =
     (let S = dropWhile is_space inputString
      in if S \<noteq> [] \<and> (hd S = CHR ''+'' \<or> hd S = CHR ''-'') then tl S else S)"

definition parseInt :: "string \<Rightarrow> jsnumber" where
  "parseInt inputString =
     (let S = dropWhile is_space inputString;
          sign = (if S \<noteq> [] \<and> hd S = CHR ''-'' then - 1 else (1::int));
          S = strip_sign inputString;
          R = (if has_hex_prefix S then 16 else 10);
          S = (if has_hex_prefix S then drop 2 S else S);
          Z = takeWhile (radix_digit R) S
      in if Z = [] then NaN
         else case to_double (digits_value R Z) of
                None \<Rightarrow> (if sign = - 1 then NegInfinity else PosInfinity)
              | Some m \<Rightarrow> Finite (sign * m))"

section \<open>Data model\<close>

text \<open>The object literal built by the create handler.\<close>

record todo =
  todo_id :: int
  title :: json
  description :: json
  completed :: json
  createdAt :: timestamp
  updatedAt :: timestamp

text \<open>
  The content of \<^verbatim>\<open>todos.json\<close>. The text is represented by what \<^verbatim>\<open>JSON.parse\<close> makes of
  it, and \<^verbatim>\<open>JSON.parse\<close> is taken to invert \<^verbatim>\<open>JSON.stringify\<close> on strings, booleans,
  integers below \<open>2^53\<close> and the arrays and objects made of them. \<open>Snapshot\<close> is an object
  whose properties \<^verbatim>\<open>todos\<close> (an array of todos) and \<^verbatim>\<open>nextId\<close> (a number) may each be
  missing; \<open>Broken\<close> is a file whose reading or parsing throws anything but
  \<^verbatim>\<open>ENOENT\<close>; \<open>Missing\<close> is \<^verbatim>\<open>ENOENT\<close>.
\<close>

datatype data_file = Missing | Broken | Snapshot "todo list option" "int option"

text \<open>The module-level variables \<^verbatim>\<open>todos\<close> and \<^verbatim>\<open>nextId\<close>, and the file \<^verbatim>\<open>DATA_FILE\<close>.\<close>

record state =
  todos :: "todo list"
  nextId :: int
  DATA_FILE :: data_file

definition initial :: "data_file \<Rightarrow> state" where
  "initial f = \<lparr>todos = [], nextId = 1, DATA_FILE = f\<rparr>"

text \<open>The properties the handlers destructure from \<^verbatim>\<open>req.body\<close>; \<open>None\<close> is \<^verbatim>\<open>undefined\<close>.\<close>

record req_body =
  body_title :: "json option"
  body_description :: "json option"
  body_completed :: "json option"

datatype payload =
    Data_list "todo list"
  | Data todo
  | Message string

text \<open>
  What a handler does with the request: it writes a response, or it throws a TypeError
  before it has written one (\<open>Threw\<close>). What the client then receives is not decided by
  the handlers.
\<close>

datatype response =
    Response nat bool payload
  | Health nat string nat
  | Threw

section \<open>Persistence\<close>

text \<open>
  \<^verbatim>\<open>saveData\<close> writes \<^verbatim>\<open>{ todos, nextId }\<close>; a failing \<^verbatim>\<open>fs.writeFile\<close> is caught and
  logged. Whether the write succeeds is an input \<open>w\<close> from the environment.
\<close>

definition saveData :: "bool \<Rightarrow> state \<Rightarrow> state" where
  "saveData w st =
     (if w then st\<lparr>DATA_FILE := Snapshot (Some (todos st)) (Some (nextId st))\<rparr> else st)"

text \<open>\<^verbatim>\<open>parsed.todos || []\<close>: an array is truthy; \<^verbatim>\<open>parsed.nextId || 1\<close>: \<open>0\<close> is falsy.\<close>

definition loadData :: "bool \<Rightarrow> state \<Rightarrow> state" where
  "loadData w st =
     (case DATA_FILE st of
        Snapshot parsed_todos parsed_nextId \<Rightarrow>
          st\<lparr>todos := (case parsed_todos of None \<Rightarrow> [] | Some ts \<Rightarrow> ts),
             nextId := (case parsed_nextId of None \<Rightarrow> 1
                        | Some n \<Rightarrow> if n \<noteq> 0 then n else 1)\<rparr>
      | Missing \<Rightarrow> saveData w st
      | Broken \<Rightarrow> st)"

section \<open>Array helpers\<close>

text \<open>\<^verbatim>\<open>Array.prototype.findIndex\<close>: the index of the first match, or \<open>-1\<close>.\<close>

fun findIndex :: "('a \<Rightarrow> bool) \<Rightarrow> 'a list \<Rightarrow> int" where
  "findIndex p [] = - 1"
| "findIndex p (x # xs) =
     (if p x then 0 else (let i = findIndex p xs in if i = - 1 then - 1 else i + 1))"

text \<open>\<^verbatim>\<open>todos.splice(i, 1)\<close>: what remains in the array.\<close>

definition splice1 :: "nat \<Rightarrow> 'a list \<Rightarrow> 'a list" where
  "splice1 i xs = take i xs @ drop (Suc i) xs"

text \<open>The decimal rendering of a count in a template literal.\<close>

fun string_of_nat :: "nat \<Rightarrow> string" where
  "string_of_nat n =
     (if n < 10 then [char_of (48 + n)]
      else string_of_nat (n div 10) @ [char_of (48 + n mod 10)])"

declare string_of_nat.simps [simp del]

section \<open>Request handlers\<close>

text \<open>
  Each handler is a function of the state that returns the new state and the response.
  The path parameter \<^verbatim>\<open>req.params.id\<close> is the string \<open>s\<close>; every
  \<^verbatim>\<open>new Date().toISOString()\<close> is a reading of the clock given as an argument, in the
  order the source makes them. Of \<^verbatim>\<open>console.log\<close> the model keeps what can change the
  outcome: the lines that interpolate a title come before the response is written and
  throw when the title is not \<open>printable\<close>; the lines that interpolate numbers only do
  not throw. A handler is run to its end before the next request is taken: no other
  request is handled while it awaits \<^verbatim>\<open>saveData\<close>.
\<close>

definition matches :: "jsnumber \<Rightarrow> todo \<Rightarrow> bool" where
  "matches n t = (Finite (todo_id t) = n)"

definition not_found :: response where
  "not_found = Response 404 False (Message ''Todo not found'')"

definition get_todos :: "state \<Rightarrow> state \<times> response" where
  "get_todos st = (st, Response 200 True (Data_list (todos st)))"

definition get_todo :: "string \<Rightarrow> state \<Rightarrow> state \<times> response" where
  "get_todo s st =
     (let n = parseInt s in
      case find (matches n) (todos st) of
        None \<Rightarrow> (st, not_found)
      | Some t \<Rightarrow>
          if \<not> printable (title t) then (st, Threw)
          else (st, Response 200 True (Data t)))"

definition post_todo :: "req_body \<Rightarrow> timestamp \<Rightarrow> timestamp \<Rightarrow> bool \<Rightarrow> state \<Rightarrow> state \<times> response" where
  "post_todo b now1 now2 w st =
     (case body_title b of
        None \<Rightarrow> (st, Response 400 False (Message ''Title is required''))
      | Some ti \<Rightarrow>
          if \<not> truthy ti then (st, Response 400 False (Message ''Title is required''))
          else
            let newTodo = \<lparr>todo_id = nextId st,
                           title = ti,
                           description = (case body_description b of
                                            None \<Rightarrow> JStr []
                                          | Some d \<Rightarrow> if truthy d then d else JStr []),
                           completed = JBool False,
                           createdAt = now1,
                           updatedAt = now2\<rparr>;
                st1 = st\<lparr>nextId := nextId st + 1\<rparr>;
                st2 = st1\<lparr>todos := todos st1 @ [newTodo]\<rparr>;
                st3 = saveData w st2
            in if \<not> printable ti then (st3, Threw)
               else (st3, Response 201 True (Data newTodo)))"

definition put_todo :: "string \<Rightarrow> req_body \<Rightarrow> timestamp \<Rightarrow> bool \<Rightarrow> state \<Rightarrow> state \<times> response" where
  "put_todo s b now w st =
     (let n = parseInt s;
          todoIndex = findIndex (matches n) (todos st)
      in if todoIndex = - 1 then (st, not_found)
         else
           let old = todos st ! nat todoIndex;
               updatedTodo = old
                 \<lparr>title := (case body_title b of None \<Rightarrow> title old | Some v \<Rightarrow> v),
                  description := (case body_description b of None \<Rightarrow> description old | Some v \<Rightarrow> v),
                  completed := (case body_completed b of None \<Rightarrow> completed old | Some v \<Rightarrow> v),
                  updatedAt := now\<rparr>;
               st1 = st\<lparr>todos := (todos st)[nat todoIndex := updatedTodo]\<rparr>;
               st2 = saveData w st1
           in if \<not> printable (title updatedTodo) then (st2, Threw)
              else (st2, Response 200 True (Data updatedTodo)))"

text \<open>
  What the toggle handler does after \<^verbatim>\<open>await saveData()\<close>: it reads \<^verbatim>\<open>todos[todoIndex]\<close>
  again, from the store as it is by then, for the log and for the response. Reading a
  property of \<^verbatim>\<open>undefined\<close> throws.
\<close>

definition toggle_respond :: "nat \<Rightarrow> state \<Rightarrow> response" where
  "toggle_respond todoIndex st =
     (if \<not> todoIndex < length (todos st) then Threw
      else if \<not> printable (title (todos st ! todoIndex)) then Threw
      else Response 200 True (Data (todos st ! todoIndex)))"

definition patch_toggle :: "string \<Rightarrow> timestamp \<Rightarrow> bool \<Rightarrow> state \<Rightarrow> state \<times> response" where
  "patch_toggle s now w st =
     (let n = parseInt s;
          todoIndex = findIndex (matches n) (todos st)
      in if todoIndex = - 1 then (st, not_found)
         else
           let old = todos st ! nat todoIndex;
               t1 = old\<lparr>completed := JBool (\<not> truthy (completed old))\<rparr>;
               t2 = t1\<lparr>updatedAt := now\<rparr>;
               st1 = st\<lparr>todos := (todos st)[nat todoIndex := t2]\<rparr>;
               st2 = saveData w st1
           in (st2, toggle_respond (nat todoIndex) st2))"

definition delete_todo :: "string \<Rightarrow> bool \<Rightarrow> state \<Rightarrow> state \<times> response" where
  "delete_todo s w st =
     (let n = parseInt s;
          todoIndex = findIndex (matches n) (todos st)
      in if todoIndex = - 1 then (st, not_found)
         else
           let deletedTodo = todos st ! nat todoIndex;
               st1 = st\<lparr>todos := splice1 (nat todoIndex) (todos st)\<rparr>;
               st2 = saveData w st1
           in if \<not> printable (title deletedTodo) then (st2, Threw)
              else (st2, Response 200 True (Data deletedTodo)))"

definition delete_completed :: "bool \<Rightarrow> state \<Rightarrow> state \<times> response" where
  "delete_completed w st =
     (let initialLength = length (todos st);
          st1 = st\<lparr>todos := filter (\<lambda>t. \<not> truthy (completed t)) (todos st)\<rparr>;
          deletedCount = initialLength - length (todos st1)
      in (saveData w st1,
          Response 200 True (Message (''Deleted '' @ string_of_nat deletedCount @ '' completed todos''))))"

definition health :: "state \<Rightarrow> state \<times> response" where
  "health st = (st, Health 200 ''ok'' (length (todos st)))"

section \<open>Runs of the server\<close>

datatype request =
    GET_todos
  | GET_todo string
  | POST_todo req_body timestamp timestamp bool
  | PUT_todo string req_body timestamp bool
  | PATCH_toggle string timestamp bool
  | DELETE_todo string bool
  | DELETE_completed bool
  | GET_health

fun handle :: "request \<Rightarrow> state \<Rightarrow> state \<times> response" where
  "handle GET_todos st = get_todos st"
| "handle (GET_todo s) st = get_todo s st"
| "handle (POST_todo b now1 now2 w) st = post_todo b now1 now2 w st"
| "handle (PUT_todo s b now w) st = put_todo s b now w st"
| "handle (PATCH_toggle s now w) st = patch_toggle s now w st"
| "handle (DELETE_todo s w) st = delete_todo s w st"
| "handle (DELETE_completed w) st = delete_completed w st"
| "handle GET_health st = health st"

text \<open>A run handles the requests in order and collects the responses.\<close>

fun run :: "request list \<Rightarrow> state \<Rightarrow> state \<times> response list" where
  "run [] st = (st, [])"
| "run (r # rs) st =
     (let (st1, resp) = handle r st; (st2, resps) = run rs st1 in (st2, resp # resps))"

text \<open>The states of a run, one after each request.\<close>

fun stores :: "request list \<Rightarrow> state \<Rightarrow> state list" where
  "stores [] st = []"
| "stores (r # rs) st = (let st1 = fst (handle r st) in st1 # stores rs st1)"

text \<open>The ids handed out in a run: those of the todos returned with status 201.\<close>

fun created_id :: "response \<Rightarrow> int list" where
  "created_id (Response code ok (Data t)) = (if code = 201 then [todo_id t] else [])"
| "created_id r = []"

definition issued :: "response list \<Rightarrow> int list" where
  "issued rs = concat (map created_id rs)"

text \<open>The invariant of the store: ids are distinct and below \<^verbatim>\<open>nextId\<close>.\<close>

definition store_inv :: "state \<Rightarrow> bool" where
  "store_inv st \<longleftrightarrow>
     distinct (map todo_id (todos st)) \<and> (\<forall>t\<in>set (todos st). todo_id t < nextId st)"

section \<open>Sample requests\<close>

definition buy_milk :: req_body where
  "buy_milk = \<lparr>body_title = Some (JStr ''Buy milk''), body_description = None,
               body_completed = None\<rparr>"

definition walk_dog :: req_body where
  "walk_dog = \<lparr>body_title = Some (JStr ''Walk dog''), body_description = Some (JStr ''twice''),
               body_completed = None\<rparr>"

definition no_title :: req_body where
  "no_title = \<lparr>body_title = None, body_description = Some (JStr ''x''), body_completed = None\<rparr>"

definition set_completed :: req_body where
  "set_completed = \<lparr>body_title = None, body_description = None,
                    body_completed = Some (JBool True)\<rparr>"

definition retitle :: req_body where
  "retitle = \<lparr>body_title = Some (JStr ''Feed cat''), body_description = None,
              body_completed = None\<rparr>"

definition odd_title :: req_body where
  "odd_title = \<lparr>body_title = Some (JObj [(''toString'', JNum 1)]), body_description = None,
                body_completed = None\<rparr>"

definition completed_no :: req_body where
  "completed_no = \<lparr>body_title = None, body_description = None,
                   body_completed = Some (JStr ''no'')\<rparr>"

definition blank_title :: req_body where
  "blank_title = \<lparr>body_title = Some (JStr []), body_description = None, body_completed = None\<rparr>"

definition milk :: todo where
  "milk = \<lparr>todo_id = 1, title = JStr ''Buy milk'', description = JStr [],
           completed = JBool False, createdAt = ''2024-01-01T00:00:00.000Z'',
           updatedAt = ''2024-01-01T00:00:00.000Z''\<rparr>"

definition dog :: todo where
  "dog = \<lparr>todo_id = 2, title = JStr ''Walk dog'', description = JStr ''twice'',
          completed = JBool True, createdAt = ''2024-01-02T00:00:00.000Z'',
          updatedAt = ''2024-01-03T00:00:00.000Z''\<rparr>"

definition two_todos :: state where
  "two_todos = \<lparr>todos = [milk, dog], nextId = 3, DATA_FILE = Missing\<rparr>"

definition five :: "todo list" where
  "five = [milk, dog, milk\<lparr>todo_id := 3\<rparr>, dog\<lparr>todo_id := 4\<rparr>, milk\<lparr>todo_id := 5\<rparr>]"

definition session :: "request list" where
  "session =
     [POST_todo buy_milk ''2024-01-01T00:00:00.000Z'' ''2024-01-01T00:00:00.000Z'' True,
      POST_todo walk_dog ''2024-01-02T00:00:00.000Z'' ''2024-01-02T00:00:00.000Z'' True,
      PATCH_toggle ''2'' ''2024-01-03T00:00:00.000Z'' True,
      DELETE_todo ''1'' True,
      POST_todo no_title ''2024-01-04T00:00:00.000Z'' ''2024-01-04T00:00:00.000Z'' True,
      POST_todo buy_milk ''2024-01-05T00:00:00.000Z'' ''2024-01-05T00:00:00.000Z'' False,
      POST_todo odd_title ''2024-01-06T00:00:00.000Z'' ''2024-01-06T00:00:00.000Z'' True]"

section \<open>Lemmas on the helpers\<close>

lemma findIndex_ge: "- 1 \<le> findIndex p xs"
  by (induction xs) (auto simp: Let_def)

lemma findIndex_none: "findIndex p xs = - 1 \<longleftrightarrow> (\<forall>x\<in>set xs. \<not> p x)"
proof (induction xs)
  case Nil
  show ?case by simp
next
  case (Cons x xs)
  have "- 1 \<le> findIndex p xs" by (rule findIndex_ge)
  with Cons show ?case by (auto simp: Let_def)
qed

lemma findIndex_first:
  "i < length xs \<Longrightarrow> p (xs ! i) \<Longrightarrow> (\<forall>j<i. \<not> p (xs ! j)) \<Longrightarrow> findIndex p xs = int i"
proof (induction xs arbitrary: i)
  case Nil
  then show ?case by simp
next
  case (Cons x xs)
  show ?case
  proof (cases i)
    case 0
    with Cons.prems show ?thesis by simp
  next
    case (Suc k)
    with Cons.prems have nx: "\<not> p x" by auto
    from Suc Cons.prems have "k < length xs" "p (xs ! k)" "\<forall>j<k. \<not> p (xs ! j)" by auto
    then have "findIndex p xs = int k" by (rule Cons.IH)
    with nx Suc show ?thesis by (simp add: Let_def)
  qed
qed

lemma findIndex_found:
  assumes "findIndex p xs \<noteq> - 1"
  shows "0 \<le> findIndex p xs \<and> nat (findIndex p xs) < length xs \<and> p (xs ! nat (findIndex p xs))
         \<and> (\<forall>j < nat (findIndex p xs). \<not> p (xs ! j))"
  using assms
proof (induction xs)
  case Nil
  then show ?case by simp
next
  case (Cons x xs)
  show ?case
  proof (cases "p x")
    case True
    then show ?thesis by simp
  next
    case False
    with Cons.prems have ne: "findIndex p xs \<noteq> - 1" by (auto simp: Let_def)
    from Cons.IH [OF ne] have ih: "0 \<le> findIndex p xs" "nat (findIndex p xs) < length xs"
      "p (xs ! nat (findIndex p xs))" "\<forall>j < nat (findIndex p xs). \<not> p (xs ! j)" by auto
    from False ne have eq: "findIndex p (x # xs) = findIndex p xs + 1" by (simp add: Let_def)
    from ih(1) have n: "nat (findIndex p xs + 1) = Suc (nat (findIndex p xs))" by simp
    show ?thesis unfolding eq n using ih False
      by (auto simp: nth_Cons split: nat.splits)
  qed
qed

lemma find_none: "find p xs = None \<longleftrightarrow> (\<forall>x\<in>set xs. \<not> p x)"
  by (induction xs) auto

lemma find_first:
  "i < length xs \<Longrightarrow> p (xs ! i) \<Longrightarrow> (\<forall>j<i. \<not> p (xs ! j)) \<Longrightarrow> find p xs = Some (xs ! i)"
proof (induction xs arbitrary: i)
  case Nil
  then show ?case by simp
next
  case (Cons x xs)
  show ?case
  proof (cases i)
    case 0
    with Cons.prems show ?thesis by simp
  next
    case (Suc k)
    with Cons.prems have nx: "\<not> p x" by auto
    from Suc Cons.prems have "k < length xs" "p (xs ! k)" "\<forall>j<k. \<not> p (xs ! j)" by auto
    then have "find p xs = Some (xs ! k)" by (rule Cons.IH)
    with nx Suc show ?thesis by simp
  qed
qed

lemma todos_saveData [simp]: "todos (saveData w st) = todos st"
  by (simp add: saveData_def)

lemma nextId_saveData [simp]: "nextId (saveData w st) = nextId st"
  by (simp add: saveData_def)

lemma splice1_nth_notin:
  assumes "distinct (map f xs)" "i < length xs"
  shows "\<forall>x\<in>set (splice1 i xs). f x \<noteq> f (xs ! i)"
proof -
  have xs: "xs = take i xs @ xs ! i # drop (Suc i) xs"
    using assms(2) by (simp add: id_take_nth_drop [symmetric])
  have "distinct (map f (take i xs @ xs ! i # drop (Suc i) xs))"
    using assms(1) xs by simp
  then show ?thesis by (auto simp: splice1_def image_iff)
qed

lemma distinct_splice1_plain: "distinct ys \<Longrightarrow> distinct (splice1 i ys)"
proof (cases "i < length ys")
  case True
  assume d: "distinct ys"
  have "ys = take i ys @ ys ! i # drop (Suc i) ys"
    using True by (simp add: id_take_nth_drop [symmetric])
  with d have "distinct (take i ys @ ys ! i # drop (Suc i) ys)" by simp
  then show ?thesis by (simp add: splice1_def)
next
  case False
  assume "distinct ys"
  with False show ?thesis by (simp add: splice1_def)
qed

lemma distinct_splice1: "distinct (map f xs) \<Longrightarrow> distinct (map f (splice1 i xs))"
  using distinct_splice1_plain [of "map f xs" i]
  by (simp add: splice1_def take_map drop_map)

lemma set_splice1: "set (splice1 i xs) \<subseteq> set xs"
  by (auto simp: splice1_def dest: in_set_takeD in_set_dropD)

lemma length_filter_compl:
  "length xs - length (filter (\<lambda>x. \<not> P x) xs) = length (filter P xs)"
  using sum_length_filter_compl [of P xs] by simp

subsection \<open>An id that matches no todo\<close>

lemma no_match_findIndex:
  "\<forall>t\<in>set (todos st). Finite (todo_id t) \<noteq> n \<Longrightarrow> findIndex (matches n) (todos st) = - 1"
  by (simp add: findIndex_none matches_def)

lemma no_match_find:
  "\<forall>t\<in>set (todos st). Finite (todo_id t) \<noteq> n \<Longrightarrow> find (matches n) (todos st) = None"
  by (simp add: find_none matches_def)

lemma no_match_handlers:
  assumes "\<forall>t\<in>set (todos st). Finite (todo_id t) \<noteq> parseInt s"
  shows "get_todo s st = (st, not_found)" "put_todo s b now w st = (st, not_found)"
    "patch_toggle s now w st = (st, not_found)" "delete_todo s w st = (st, not_found)"
  using no_match_findIndex [OF assms] no_match_find [OF assms]
  by (simp_all add: get_todo_def put_todo_def patch_toggle_def delete_todo_def)

lemma delete_twice:
  assumes "distinct (map todo_id (todos st))"
  shows "delete_todo s w2 (fst (delete_todo s w1 st)) = (fst (delete_todo s w1 st), not_found)"
proof (cases "findIndex (matches (parseInt s)) (todos st) = - 1")
  case True
  then show ?thesis by (simp add: delete_todo_def)
next
  case False
  let ?i = "nat (findIndex (matches (parseInt s)) (todos st))"
  from findIndex_found [OF False] have i: "?i < length (todos st)"
    and m: "matches (parseInt s) (todos st ! ?i)" by auto
  define k where "k = todo_id (todos st ! ?i)"
  from m have p: "parseInt s = Finite k" by (simp add: matches_def k_def)
  from splice1_nth_notin [OF assms i]
  have "\<forall>t\<in>set (splice1 ?i (todos st)). todo_id t \<noteq> k"
    by (simp add: k_def)
  then have "\<forall>t\<in>set (splice1 ?i (todos st)). Finite (todo_id t) \<noteq> parseInt s"
    by (simp add: p)
  then have "findIndex (matches (parseInt s)) (splice1 ?i (todos st)) = - 1"
    by (simp add: findIndex_none matches_def)
  with False show ?thesis by (simp add: delete_todo_def Let_def)
qed

subsection \<open>\<^verbatim>\<open>parseInt\<close>\<close>

lemma to_double_exact: "n \<le> 2 ^ 53 \<Longrightarrow> to_double n = Some n"
  by (simp add: to_double_def)

lemma parseInt_NaN_digits:
  "parseInt s = NaN \<longleftrightarrow>
     takeWhile (radix_digit (if has_hex_prefix (strip_sign s) then 16 else 10))
       (if has_hex_prefix (strip_sign s) then drop 2 (strip_sign s) else strip_sign s) = []"
  unfolding parseInt_def Let_def
  by (simp split: option.splits)

lemma parseInt_NaN_iff:
  "parseInt s = NaN \<longleftrightarrow>
     (let S = strip_sign s in
      if has_hex_prefix S then drop 2 S = [] \<or> \<not> radix_digit 16 (hd (drop 2 S))
      else S = [] \<or> \<not> radix_digit 10 (hd S))"
  unfolding parseInt_NaN_digits Let_def
  by (simp add: takeWhile_eq_Nil_iff)

lemma digit10_not_space: "radix_digit 10 c \<Longrightarrow> \<not> is_space c"
  by (auto simp: radix_digit_def digit_value_def is_space_def Let_def split: if_splits)

lemma digit10_not_sign:
  "radix_digit 10 c \<Longrightarrow> c \<noteq> CHR ''+'' \<and> c \<noteq> CHR ''-'' \<and> c \<noteq> CHR ''x'' \<and> c \<noteq> CHR ''X''"
  by (auto simp: radix_digit_def digit_value_def Let_def split: if_splits)

lemma parseInt_digit_prefix:
  assumes ne: "ds \<noteq> []" and ds: "\<forall>c\<in>set ds. radix_digit 10 c"
    and c: "\<not> radix_digit 10 c"
    and nohex: "\<not> (ds = ''0'' \<and> (c = CHR ''x'' \<or> c = CHR ''X''))"
    and small: "digits_value 10 ds \<le> 2 ^ 53"
  shows "parseInt (ds @ c # rest) = Finite (digits_value 10 ds)"
proof -
  obtain d ds' where dd: "ds = d # ds'" using ne by (cases ds) auto
  from ds dd have d: "radix_digit 10 d" by simp
  have dw: "dropWhile is_space (ds @ c # rest) = ds @ c # rest"
    using digit10_not_space [OF d] dd by simp
  have ss: "strip_sign (ds @ c # rest) = ds @ c # rest"
    using digit10_not_sign [OF d] dd dw by (simp add: strip_sign_def)
  have nh: "\<not> has_hex_prefix (ds @ c # rest)"
  proof (cases ds')
    case Nil
    with dd nohex show ?thesis by (auto simp: has_hex_prefix_def)
  next
    case (Cons e es)
    with ds dd have "radix_digit 10 e" by simp
    from digit10_not_sign [OF this] Cons dd show ?thesis by (auto simp: has_hex_prefix_def)
  qed
  have tw: "takeWhile (radix_digit 10) (ds @ c # rest) = ds"
    using ds c by (simp add: takeWhile_append2)
  have hd: "hd ds \<noteq> CHR ''-''" using digit10_not_sign [OF d] dd by simp
  show ?thesis using ne hd
    by (simp add: parseInt_def Let_def dw ss nh tw to_double_exact [OF small]
        del: dropWhile_append3 takeWhile_append2)
qed

subsection \<open>Every handler keeps the invariant\<close>

lemma map_id_update:
  "i < length xs \<Longrightarrow> todo_id t = todo_id (xs ! i) \<Longrightarrow> map todo_id (xs[i := t]) = map todo_id xs"
  by (simp add: map_update list_update_same_conv)

lemma set_update_ids:
  assumes "i < length xs" "todo_id t = todo_id (xs ! i)" "\<forall>x\<in>set xs. todo_id x < n"
  shows "\<forall>x\<in>set (xs[i := t]). todo_id x < n"
proof
  fix x assume "x \<in> set (xs[i := t])"
  then have "x = t \<or> x \<in> set xs" using set_update_subset_insert [of xs i t] by auto
  then show "todo_id x < n" using assms nth_mem [OF assms(1)] by auto
qed

lemma inv_update:
  assumes "store_inv st" "i < length (todos st)" "todo_id t = todo_id (todos st ! i)"
  shows "store_inv (saveData w (st\<lparr>todos := (todos st)[i := t]\<rparr>))"
proof -
  from assms(1) have lt: "\<forall>x\<in>set (todos st). todo_id x < nextId st"
    and d: "distinct (map todo_id (todos st))" by (simp_all add: store_inv_def)
  from set_update_ids [OF assms(2,3) lt] d show ?thesis
    by (simp add: store_inv_def map_id_update [OF assms(2,3)])
qed

lemma inv_get_todos: "fst (get_todos st) = st" "created_id (snd (get_todos st)) = []"
  by (simp_all add: get_todos_def)

lemma inv_get_todo: "fst (get_todo s st) = st" "created_id (snd (get_todo s st)) = []"
  by (simp_all add: get_todo_def not_found_def split: option.splits)

lemma inv_health: "fst (health st) = st" "created_id (snd (health st)) = []"
  by (simp_all add: health_def)

lemma inv_post:
  assumes "store_inv st"
  shows "store_inv (fst (post_todo b n1 n2 w st))"
    and "nextId st \<le> nextId (fst (post_todo b n1 n2 w st))"
    and "\<forall>k\<in>set (created_id (snd (post_todo b n1 n2 w st))).
           k < nextId (fst (post_todo b n1 n2 w st))"
  using assms
  by (auto simp: post_todo_def store_inv_def Let_def split: option.splits)

lemma inv_put:
  assumes "store_inv st"
  shows "store_inv (fst (put_todo s b now w st))"
    and "nextId (fst (put_todo s b now w st)) = nextId st"
    and "created_id (snd (put_todo s b now w st)) = []"
proof -
  let ?k = "findIndex (matches (parseInt s)) (todos st)"
  show "nextId (fst (put_todo s b now w st)) = nextId st"
    and "created_id (snd (put_todo s b now w st)) = []"
    by (simp_all add: put_todo_def Let_def not_found_def)
  show "store_inv (fst (put_todo s b now w st))"
  proof (cases "?k = - 1")
    case True
    with assms show ?thesis by (simp add: put_todo_def)
  next
    case False
    from findIndex_found [OF False] have i: "nat ?k < length (todos st)" by simp
    show ?thesis using False
      by (simp add: put_todo_def Let_def inv_update [OF assms i])
  qed
qed

lemma inv_toggle:
  assumes "store_inv st"
  shows "store_inv (fst (patch_toggle s now w st))"
    and "nextId (fst (patch_toggle s now w st)) = nextId st"
    and "created_id (snd (patch_toggle s now w st)) = []"
proof -
  let ?k = "findIndex (matches (parseInt s)) (todos st)"
  show "nextId (fst (patch_toggle s now w st)) = nextId st"
    and "created_id (snd (patch_toggle s now w st)) = []"
    by (simp_all add: patch_toggle_def Let_def not_found_def toggle_respond_def)
  show "store_inv (fst (patch_toggle s now w st))"
  proof (cases "?k = - 1")
    case True
    with assms show ?thesis by (simp add: patch_toggle_def)
  next
    case False
    from findIndex_found [OF False] have i: "nat ?k < length (todos st)" by simp
    show ?thesis using False
      by (simp add: patch_toggle_def Let_def inv_update [OF assms i])
  qed
qed

lemma inv_delete:
  assumes "store_inv st"
  shows "store_inv (fst (delete_todo s w st))"
    and "nextId (fst (delete_todo s w st)) = nextId st"
    and "created_id (snd (delete_todo s w st)) = []"
  using assms set_splice1 [of _ "todos st"]
  by (auto simp: delete_todo_def Let_def not_found_def store_inv_def distinct_splice1)

lemma inv_delete_completed:
  assumes "store_inv st"
  shows "store_inv (fst (delete_completed w st))"
    and "nextId (fst (delete_completed w st)) = nextId st"
    and "created_id (snd (delete_completed w st)) = []"
  using assms
  by (auto simp: delete_completed_def Let_def store_inv_def distinct_map_filter)

lemma inv_handle:
  assumes "store_inv st"
  shows "store_inv (fst (handle r st)) \<and> nextId st \<le> nextId (fst (handle r st))
       \<and> (\<forall>k\<in>set (created_id (snd (handle r st))). k < nextId (fst (handle r st)))"
proof (cases r)
  case GET_todos
  with assms show ?thesis by (simp add: inv_get_todos)
next
  case (GET_todo s)
  with assms show ?thesis by (simp add: inv_get_todo)
next
  case (POST_todo b n1 n2 w)
  with inv_post [OF assms, of b n1 n2 w] show ?thesis by simp
next
  case (PUT_todo s b now w)
  with inv_put [OF assms, of s b now w] show ?thesis by simp
next
  case (PATCH_toggle s now w)
  with inv_toggle [OF assms, of s now w] show ?thesis by simp
next
  case (DELETE_todo s w)
  with inv_delete [OF assms, of s w] show ?thesis by simp
next
  case (DELETE_completed w)
  with inv_delete_completed [OF assms, of w] show ?thesis by simp
next
  case GET_health
  with assms show ?thesis by (simp add: inv_health)
qed

lemma inv_run:
  "store_inv st \<Longrightarrow>
   store_inv (fst (run rs st)) \<and> nextId st \<le> nextId (fst (run rs st))
   \<and> (\<forall>k\<in>set (issued (snd (run rs st))). k < nextId (fst (run rs st)))"
proof (induction rs arbitrary: st)
  case Nil
  then show ?case by (simp add: issued_def)
next
  case (Cons r rs)
  let ?st1 = "fst (handle r st)"
  from inv_handle [OF Cons.prems, of r]
  have h: "store_inv ?st1" "nextId st \<le> nextId ?st1"
    "\<forall>k\<in>set (created_id (snd (handle r st))). k < nextId ?st1" by auto
  from Cons.IH [OF h(1)]
  have ih: "store_inv (fst (run rs ?st1))" "nextId ?st1 \<le> nextId (fst (run rs ?st1))"
    "\<forall>k\<in>set (issued (snd (run rs ?st1))). k < nextId (fst (run rs ?st1))" by auto
  have eq: "run (r # rs) st = (fst (run rs ?st1), snd (handle r st) # snd (run rs ?st1))"
    by (simp add: split_beta Let_def)
  show ?case unfolding eq using h ih by (fastforce simp: issued_def)
qed

lemma inv_stores:
  "store_inv st \<Longrightarrow>
   \<forall>st'\<in>set (stores rs st). \<forall>t\<in>set (todos st'). todo_id t < nextId (fst (run rs st))"
proof (induction rs arbitrary: st)
  case Nil
  then show ?case by simp
next
  case (Cons r rs)
  let ?st1 = "fst (handle r st)"
  from inv_handle [OF Cons.prems, of r] have h: "store_inv ?st1" by simp
  from inv_run [OF h, of rs] have le: "nextId ?st1 \<le> nextId (fst (run rs ?st1))" by simp
  from h have lt: "\<forall>t\<in>set (todos ?st1). todo_id t < nextId ?st1" by (simp add: store_inv_def)
  have eq: "fst (run (r # rs) st) = fst (run rs ?st1)"
    by (simp add: split_beta Let_def)
  have st: "stores (r # rs) st = ?st1 # stores rs ?st1" by (simp add: Let_def)
  show ?case unfolding eq st using Cons.IH [OF h] lt le by fastforce
qed

lemma inv_initial: "store_inv (initial f)"
  by (simp add: store_inv_def initial_def)

section \<open>Persistence round trip\<close>

text \<open>
  C1. For every store state with \<open>nextId \<ge> 1\<close>, a successful \<^verbatim>\<open>saveData\<close> followed by
  \<^verbatim>\<open>loadData\<close> in a fresh store (empty, \<open>nextId = 1\<close>) that reads the written file gives
  back the same sequence of todos, field by field and in the same order, and the same
  \<open>nextId\<close>. The hypothesis is needed for \<^verbatim>\<open>parsed.nextId || 1\<close> only.
\<close>

theorem save_load_round_trip:
  assumes "1 \<le> nextId st"
  shows "DATA_FILE (saveData True st) = Snapshot (Some (todos st)) (Some (nextId st))
       \<and> todos (loadData w (initial (DATA_FILE (saveData True st)))) = todos st
       \<and> nextId (loadData w (initial (DATA_FILE (saveData True st)))) = nextId st"
  using assms by (simp add: loadData_def saveData_def initial_def)

theorem save_load_round_trip_witness:
  "1 \<le> nextId two_todos
   \<and> todos (loadData False (initial (DATA_FILE (saveData True two_todos)))) = [milk, dog]
   \<and> nextId (loadData False (initial (DATA_FILE (saveData True two_todos)))) = 3"
proof -
  have h: "1 \<le> nextId two_todos" by (simp add: two_todos_def)
  from save_load_round_trip [OF h, of False] h show ?thesis
    by (simp add: two_todos_def saveData_def)
qed

section \<open>Creating a todo\<close>

text \<open>
  C2. When the title of the request body is absent or the empty string, the create
  handler answers 400 with the message "Title is required" and returns the state it was
  given: no todo is appended, \<open>nextId\<close> is not incremented and nothing is saved.
\<close>

theorem post_todo_title_required:
  assumes "body_title b = None \<or> body_title b = Some (JStr [])"
  shows "post_todo b now1 now2 w st = (st, Response 400 False (Message ''Title is required''))"
  using assms by (auto simp: post_todo_def)

theorem post_todo_title_required_witness:
  "body_title no_title = None
   \<and> post_todo no_title ''2024-01-01T00:00:00.000Z'' ''2024-01-01T00:00:00.000Z'' True two_todos
       = (two_todos, Response 400 False (Message ''Title is required''))
   \<and> body_title blank_title = Some (JStr [])
   \<and> post_todo blank_title ''2024-01-01T00:00:00.000Z'' ''2024-01-01T00:00:00.000Z'' True two_todos
       = (two_todos, Response 400 False (Message ''Title is required''))"
proof -
  have h1: "body_title no_title = None \<or> body_title no_title = Some (JStr [])"
    by (simp add: no_title_def)
  have h2: "body_title blank_title = None \<or> body_title blank_title = Some (JStr [])"
    by (simp add: blank_title_def)
  from post_todo_title_required [OF h1] post_todo_title_required [OF h2]
  show ?thesis by (simp add: no_title_def blank_title_def)
qed

text \<open>
  C3, as the code has it. When the title is a non-empty string, the create handler
  appends exactly one todo at the end of the sequence, with the id \<open>nextId\<close> had before,
  which is then incremented by one; the todo carries the given title, the description
  (the empty string when it is absent), \<open>completed = false\<close>, and the response is 201
  with that todo. \<^verbatim>\<open>createdAt\<close> is the first reading of the clock and \<^verbatim>\<open>updatedAt\<close> the
  second: the handler evaluates \<^verbatim>\<open>new Date()\<close> once for each.
\<close>

theorem post_todo_appends:
  assumes "body_title b = Some (JStr ti)" and "ti \<noteq> []"
  shows "let t = \<lparr>todo_id = nextId st, title = JStr ti,
                  description = (case body_description b of
                                   None \<Rightarrow> JStr []
                                 | Some d \<Rightarrow> if truthy d then d else JStr []),
                  completed = JBool False, createdAt = now1, updatedAt = now2\<rparr>
         in todos (fst (post_todo b now1 now2 w st)) = todos st @ [t]
          \<and> nextId (fst (post_todo b now1 now2 w st)) = nextId st + 1
          \<and> snd (post_todo b now1 now2 w st) = Response 201 True (Data t)"
  using assms by (simp add: post_todo_def Let_def)

theorem post_todo_appends_witness:
  "body_title buy_milk = Some (JStr ''Buy milk'') \<and> ''Buy milk'' \<noteq> []
   \<and> todos (fst (post_todo buy_milk ''2024-01-01T00:00:00.000Z'' ''2024-01-01T00:00:00.000Z''
        True (initial Missing))) = [milk]
   \<and> nextId (fst (post_todo buy_milk ''2024-01-01T00:00:00.000Z'' ''2024-01-01T00:00:00.000Z''
        True (initial Missing))) = 2
   \<and> snd (post_todo buy_milk ''2024-01-01T00:00:00.000Z'' ''2024-01-01T00:00:00.000Z''
        True (initial Missing)) = Response 201 True (Data milk)"
proof -
  have h1: "body_title buy_milk = Some (JStr ''Buy milk'')" by (simp add: buy_milk_def)
  have h2: "''Buy milk'' \<noteq> []" by simp
  from post_todo_appends [OF h1 h2, where st = "initial Missing"
      and ?now1.0 = "''2024-01-01T00:00:00.000Z''"
      and ?now2.0 = "''2024-01-01T00:00:00.000Z''" and w = True] h1
  show ?thesis by (simp add: Let_def initial_def milk_def buy_milk_def)
qed

text \<open>
  C3 as stated asks for \<^verbatim>\<open>createdAt\<close> equal to \<^verbatim>\<open>updatedAt\<close>. When the clock moves on
  between the two readings (here from \<^verbatim>\<open>00:00:00.999\<close> to \<^verbatim>\<open>00:00:01.000\<close>), the todo that is
  stored and returned has two different timestamps.
\<close>

theorem post_todo_timestamps_differ:
  "snd (post_todo buy_milk ''2024-01-01T00:00:00.999Z'' ''2024-01-01T00:00:01.000Z'' True
          (initial Missing))
   = Response 201 True (Data \<lparr>todo_id = 1, title = JStr ''Buy milk'', description = JStr [],
        completed = JBool False, createdAt = ''2024-01-01T00:00:00.999Z'',
        updatedAt = ''2024-01-01T00:00:01.000Z''\<rparr>)
   \<and> createdAt (last (todos (fst (post_todo buy_milk ''2024-01-01T00:00:00.999Z''
          ''2024-01-01T00:00:01.000Z'' True (initial Missing)))))
     \<noteq> updatedAt (last (todos (fst (post_todo buy_milk ''2024-01-01T00:00:00.999Z''
          ''2024-01-01T00:00:01.000Z'' True (initial Missing)))))"
  by (simp add: post_todo_def initial_def Let_def buy_milk_def)

section \<open>Updating a todo\<close>

text \<open>
  C4. Let the todo at index \<open>i\<close> be the first one whose id is the one the path parameter
  parses to (under distinct ids, any todo of the store). The update handler replaces it
  by a todo in which exactly the fields the patch supplies (title, description,
  completed) are overwritten, every omitted field keeps its prior value, \<^verbatim>\<open>id\<close> and
  \<^verbatim>\<open>createdAt\<close> are kept, and \<^verbatim>\<open>updatedAt\<close> is the reading of the clock whatever the patch
  holds. Every other todo and \<open>nextId\<close> are unchanged. The handler then answers 200 with
  the updated todo, unless its log line throws on the new title.
\<close>

theorem put_todo_patch:
  assumes i: "i < length (todos st)"
    and s: "parseInt s = Finite (todo_id (todos st ! i))"
    and first: "\<forall>j<i. todo_id (todos st ! j) \<noteq> todo_id (todos st ! i)"
  shows "let st' = fst (put_todo s b now w st); old = todos st ! i; new = todos st' ! i
         in snd (put_todo s b now w st)
              = (if printable (title new) then Response 200 True (Data new) else Threw)
          \<and> title new = (case body_title b of None \<Rightarrow> title old | Some v \<Rightarrow> v)
          \<and> description new = (case body_description b of None \<Rightarrow> description old | Some v \<Rightarrow> v)
          \<and> completed new = (case body_completed b of None \<Rightarrow> completed old | Some v \<Rightarrow> v)
          \<and> updatedAt new = now
          \<and> todo_id new = todo_id old \<and> createdAt new = createdAt old
          \<and> length (todos st') = length (todos st)
          \<and> (\<forall>j<length (todos st). j \<noteq> i \<longrightarrow> todos st' ! j = todos st ! j)
          \<and> nextId st' = nextId st"
proof -
  have "findIndex (matches (parseInt s)) (todos st) = int i"
    using i s first by (intro findIndex_first) (auto simp: matches_def)
  then show ?thesis using i by (simp add: put_todo_def Let_def)
qed

theorem put_todo_patch_witness:
  "(1::nat) < length (todos two_todos)
   \<and> parseInt ''2'' = Finite (todo_id (todos two_todos ! 1))
   \<and> todo_id (todos two_todos ! 0) \<noteq> todo_id (todos two_todos ! 1)
   \<and> snd (put_todo ''2'' retitle ''2024-02-01T00:00:00.000Z'' True two_todos)
       = Response 200 True
           (Data (dog\<lparr>title := JStr ''Feed cat'', updatedAt := ''2024-02-01T00:00:00.000Z''\<rparr>))
   \<and> todos (fst (put_todo ''2'' retitle ''2024-02-01T00:00:00.000Z'' True two_todos))
       = [milk, dog\<lparr>title := JStr ''Feed cat'', updatedAt := ''2024-02-01T00:00:00.000Z''\<rparr>]
   \<and> nextId (fst (put_todo ''2'' retitle ''2024-02-01T00:00:00.000Z'' True two_todos)) = 3"
proof -
  let ?r = "put_todo ''2'' retitle ''2024-02-01T00:00:00.000Z'' True two_todos"
  have h1: "1 < length (todos two_todos)" by (simp add: two_todos_def)
  have p: "parseInt ''2'' = Finite 2" by code_simp
  have h2: "parseInt ''2'' = Finite (todo_id (todos two_todos ! 1))"
    by (simp add: p two_todos_def dog_def)
  have h3: "\<forall>j<1. todo_id (todos two_todos ! j) \<noteq> todo_id (todos two_todos ! 1)"
    by (simp add: two_todos_def dog_def milk_def)
  note inst = put_todo_patch [where b = retitle and now = "''2024-02-01T00:00:00.000Z''"
      and w = True, OF h1 h2 h3]
  from inst have r: "snd ?r = Response 200 True (Data (todos (fst ?r) ! 1))"
    and ti: "title (todos (fst ?r) ! 1) = JStr ''Feed cat''"
    and de: "description (todos (fst ?r) ! 1) = description dog"
    and c: "completed (todos (fst ?r) ! 1) = completed dog"
    and u: "updatedAt (todos (fst ?r) ! 1) = ''2024-02-01T00:00:00.000Z''"
    and k: "todo_id (todos (fst ?r) ! 1) = todo_id dog"
    and cr: "createdAt (todos (fst ?r) ! 1) = createdAt dog"
    and l: "length (todos (fst ?r)) = 2"
    and o: "todos (fst ?r) ! 0 = milk"
    and n: "nextId (fst ?r) = 3"
    by (simp_all add: Let_def retitle_def two_todos_def)
  have n1: "todos (fst ?r) ! 1
      = dog\<lparr>title := JStr ''Feed cat'', updatedAt := ''2024-02-01T00:00:00.000Z''\<rparr>"
    using c ti de u k cr by (simp add: dog_def todo.equality)
  have ts: "todos (fst ?r)
      = [milk, dog\<lparr>title := JStr ''Feed cat'', updatedAt := ''2024-02-01T00:00:00.000Z''\<rparr>]"
    using l o n1 by (intro nth_equalityI) (auto simp: nth_Cons split: nat.splits)
  from h3 have h3': "todo_id (todos two_todos ! 0) \<noteq> todo_id (todos two_todos ! 1)" by simp
  from r n1 ts n h1 h2 h3' show ?thesis by simp
qed

section \<open>Ids that match no todo\<close>

text \<open>
  C5. When the id the path parameter parses to is the id of no todo of the store, each of
  get, update, toggle and delete answers 404 with the message "Todo not found" and returns
  the state it was given. In particular, when the ids of the store are distinct, deleting
  the same id a second time answers 404 and changes nothing.
\<close>

theorem unknown_id_not_found:
  "((\<forall>t\<in>set (todos st). Finite (todo_id t) \<noteq> parseInt s) \<longrightarrow>
      get_todo s st = (st, Response 404 False (Message ''Todo not found''))
    \<and> put_todo s b now w st = (st, Response 404 False (Message ''Todo not found''))
    \<and> patch_toggle s now w st = (st, Response 404 False (Message ''Todo not found''))
    \<and> delete_todo s w st = (st, Response 404 False (Message ''Todo not found'')))
   \<and> (distinct (map todo_id (todos st)) \<longrightarrow>
      delete_todo s w' (fst (delete_todo s w st))
        = (fst (delete_todo s w st), Response 404 False (Message ''Todo not found'')))"
  using no_match_handlers [of st s] delete_twice [of st s]
  by (simp add: not_found_def)

theorem unknown_id_not_found_witness:
  "Finite (todo_id milk) \<noteq> parseInt ''999'' \<and> Finite (todo_id dog) \<noteq> parseInt ''999''
   \<and> get_todo ''999'' two_todos = (two_todos, Response 404 False (Message ''Todo not found''))
   \<and> put_todo ''999'' set_completed ''2024-02-01T00:00:00.000Z'' True two_todos
        = (two_todos, Response 404 False (Message ''Todo not found''))
   \<and> patch_toggle ''999'' ''2024-02-01T00:00:00.000Z'' True two_todos
        = (two_todos, Response 404 False (Message ''Todo not found''))
   \<and> delete_todo ''999'' True two_todos
        = (two_todos, Response 404 False (Message ''Todo not found''))
   \<and> distinct (map todo_id (todos two_todos))
   \<and> fst (delete_todo ''1'' True two_todos)
        = \<lparr>todos = [dog], nextId = 3, DATA_FILE = Snapshot (Some [dog]) (Some 3)\<rparr>
   \<and> delete_todo ''1'' True (fst (delete_todo ''1'' True two_todos))
        = (\<lparr>todos = [dog], nextId = 3, DATA_FILE = Snapshot (Some [dog]) (Some 3)\<rparr>,
           Response 404 False (Message ''Todo not found''))"
proof -
  have p: "parseInt ''999'' = Finite 999" by code_simp
  have p1: "parseInt ''1'' = Finite 1" by code_simp
  have h1: "\<forall>t\<in>set (todos two_todos). Finite (todo_id t) \<noteq> parseInt ''999''"
    by (simp add: p two_todos_def milk_def dog_def)
  have h2: "distinct (map todo_id (todos two_todos))"
    by (simp add: two_todos_def milk_def dog_def)
  have d: "fst (delete_todo ''1'' True two_todos)
        = \<lparr>todos = [dog], nextId = 3, DATA_FILE = Snapshot (Some [dog]) (Some 3)\<rparr>"
    by (simp add: delete_todo_def p1 two_todos_def matches_def milk_def Let_def splice1_def
        saveData_def)
  from unknown_id_not_found [where st = two_todos and s = "''999''" and b = set_completed
      and now = "''2024-02-01T00:00:00.000Z''" and w = True and w' = True] h1
  have a: "get_todo ''999'' two_todos = (two_todos, Response 404 False (Message ''Todo not found''))
   \<and> put_todo ''999'' set_completed ''2024-02-01T00:00:00.000Z'' True two_todos
        = (two_todos, Response 404 False (Message ''Todo not found''))
   \<and> patch_toggle ''999'' ''2024-02-01T00:00:00.000Z'' True two_todos
        = (two_todos, Response 404 False (Message ''Todo not found''))
   \<and> delete_todo ''999'' True two_todos
        = (two_todos, Response 404 False (Message ''Todo not found''))" by blast
  from unknown_id_not_found [where st = two_todos and s = "''1''" and b = set_completed
      and now = "''2024-02-01T00:00:00.000Z''" and w = True and w' = True] h2
  have b: "delete_todo ''1'' True (fst (delete_todo ''1'' True two_todos))
        = (fst (delete_todo ''1'' True two_todos), Response 404 False (Message ''Todo not found''))"
    by blast
  from h1 have h1': "Finite (todo_id milk) \<noteq> parseInt ''999'' \<and> Finite (todo_id dog) \<noteq> parseInt ''999''"
    by (simp add: two_todos_def)
  from a b h1' h2 d show ?thesis by simp
qed

section \<open>Deleting the completed todos\<close>

text \<open>
  C6, as the code has it. The handler removes exactly the todos whose \<^verbatim>\<open>completed\<close> is truthy
  and keeps the others in their order; \<open>nextId\<close> is unchanged. It answers 200 with the
  message "Deleted N completed todos", where N is the number of todos removed. When no
  todo has a truthy \<^verbatim>\<open>completed\<close>, the sequence is unchanged and the message reads
  "Deleted 0 completed todos".
\<close>

theorem delete_completed_removes:
  "todos (fst (delete_completed w st)) = filter (\<lambda>t. \<not> truthy (completed t)) (todos st)
   \<and> nextId (fst (delete_completed w st)) = nextId st
   \<and> snd (delete_completed w st) =
       Response 200 True (Message (''Deleted ''
          @ string_of_nat (length (filter (\<lambda>t. truthy (completed t)) (todos st)))
          @ '' completed todos''))
   \<and> length (todos st) = length (todos (fst (delete_completed w st)))
        + length (filter (\<lambda>t. truthy (completed t)) (todos st))
   \<and> ((\<forall>t\<in>set (todos st). \<not> truthy (completed t)) \<longrightarrow>
        todos (fst (delete_completed w st)) = todos st
      \<and> snd (delete_completed w st) = Response 200 True (Message ''Deleted 0 completed todos''))"
proof -
  let ?kept = "filter (\<lambda>t. \<not> truthy (completed t)) (todos st)"
  let ?gone = "filter (\<lambda>t. truthy (completed t)) (todos st)"
  have t: "todos (fst (delete_completed w st)) = ?kept"
    by (simp add: delete_completed_def Let_def)
  have n: "nextId (fst (delete_completed w st)) = nextId st"
    by (simp add: delete_completed_def Let_def)
  have r: "snd (delete_completed w st) =
       Response 200 True (Message (''Deleted '' @ string_of_nat (length ?gone)
          @ '' completed todos''))"
    by (simp add: delete_completed_def Let_def length_filter_compl)
  have len: "length (todos st) = length ?kept + length ?gone"
    using sum_length_filter_compl [of "\<lambda>t. truthy (completed t)" "todos st"] by simp
  have s0: "string_of_nat 0 = ''0''" by code_simp
  have zero: "(\<forall>t\<in>set (todos st). \<not> truthy (completed t)) \<longrightarrow>
        todos (fst (delete_completed w st)) = todos st
      \<and> snd (delete_completed w st) = Response 200 True (Message ''Deleted 0 completed todos'')"
  proof
    assume a: "\<forall>t\<in>set (todos st). \<not> truthy (completed t)"
    then have k: "?kept = todos st" by simp
    from a have g: "?gone = []" by (simp add: filter_empty_conv)
    show "todos (fst (delete_completed w st)) = todos st
      \<and> snd (delete_completed w st) = Response 200 True (Message ''Deleted 0 completed todos'')"
      unfolding t r k g by (simp add: s0)
  qed
  from t n r len zero show ?thesis unfolding t by blast
qed

theorem delete_completed_removes_witness:
  "map completed five = [JBool False, JBool True, JBool False, JBool True, JBool False]
   \<and> todos (fst (delete_completed True \<lparr>todos = five, nextId = 6, DATA_FILE = Missing\<rparr>))
       = [milk, milk\<lparr>todo_id := 3\<rparr>, milk\<lparr>todo_id := 5\<rparr>]
   \<and> snd (delete_completed True \<lparr>todos = five, nextId = 6, DATA_FILE = Missing\<rparr>)
       = Response 200 True (Message ''Deleted 2 completed todos'')
   \<and> \<not> truthy (completed milk)
   \<and> todos (fst (delete_completed True \<lparr>todos = [milk], nextId = 2, DATA_FILE = Missing\<rparr>)) = [milk]
   \<and> snd (delete_completed True \<lparr>todos = [milk], nextId = 2, DATA_FILE = Missing\<rparr>)
       = Response 200 True (Message ''Deleted 0 completed todos'')"
proof -
  let ?st = "\<lparr>todos = five, nextId = 6, DATA_FILE = Missing\<rparr>"
  let ?st1 = "\<lparr>todos = [milk], nextId = 2, DATA_FILE = Missing\<rparr>"
  have c: "map completed five = [JBool False, JBool True, JBool False, JBool True, JBool False]"
    by (simp add: five_def milk_def dog_def)
  have f: "filter (\<lambda>t. \<not> truthy (completed t)) five
      = [milk, milk\<lparr>todo_id := 3\<rparr>, milk\<lparr>todo_id := 5\<rparr>]"
    by (simp add: five_def milk_def dog_def)
  have g: "length (filter (\<lambda>t. truthy (completed t)) five) = Suc (Suc 0)"
    by (simp add: five_def milk_def dog_def)
  have s2: "string_of_nat (Suc (Suc 0)) = ''2''" by code_simp
  note inst = delete_completed_removes [of True ?st]
  from inst
  have a: "todos (fst (delete_completed True ?st)) = filter (\<lambda>t. \<not> truthy (completed t)) (todos ?st)"
    by blast
  from inst have m: "snd (delete_completed True ?st) =
       Response 200 True (Message (''Deleted ''
          @ string_of_nat (length (filter (\<lambda>t. truthy (completed t)) (todos ?st)))
          @ '' completed todos''))"
    by blast
  have a': "todos (fst (delete_completed True ?st)) = [milk, milk\<lparr>todo_id := 3\<rparr>, milk\<lparr>todo_id := 5\<rparr>]"
    using a f by simp
  have m2: "snd (delete_completed True ?st) = Response 200 True (Message ''Deleted 2 completed todos'')"
    unfolding m by (simp add: g s2)
  have h0: "\<forall>t\<in>set (todos ?st1). \<not> truthy (completed t)" by (simp add: milk_def)
  note inst1 = delete_completed_removes [of True ?st1]
  from inst1 h0
  have z: "todos (fst (delete_completed True ?st1)) = todos ?st1"
    "snd (delete_completed True ?st1) = Response 200 True (Message ''Deleted 0 completed todos'')"
    by blast+
  have h0': "\<not> truthy (completed milk)" by (simp add: milk_def)
  from c a' m2 z h0' show ?thesis by simp
qed

text \<open>
  C6 as stated has the handler remove exactly the todos with \<open>completed = true\<close>. After a
  create and an update with the body \<^verbatim>\<open>{"completed": "no"}\<close>, the only todo of the store has
  the string \<^verbatim>\<open>"no"\<close> for \<^verbatim>\<open>completed\<close>, not \<^verbatim>\<open>true\<close>; the handler removes it all the same and
  reports one deletion.
\<close>

theorem delete_completed_truthy_string:
  "map completed (todos (fst (run
      [POST_todo buy_milk ''2024-01-01T00:00:00.000Z'' ''2024-01-01T00:00:00.000Z'' True,
       PUT_todo ''1'' completed_no ''2024-01-02T00:00:00.000Z'' True] (initial Missing))))
     = [JStr ''no'']
   \<and> JStr ''no'' \<noteq> JBool True
   \<and> todos (fst (run
      [POST_todo buy_milk ''2024-01-01T00:00:00.000Z'' ''2024-01-01T00:00:00.000Z'' True,
       PUT_todo ''1'' completed_no ''2024-01-02T00:00:00.000Z'' True,
       DELETE_completed True] (initial Missing))) = []
   \<and> last (snd (run
      [POST_todo buy_milk ''2024-01-01T00:00:00.000Z'' ''2024-01-01T00:00:00.000Z'' True,
       PUT_todo ''1'' completed_no ''2024-01-02T00:00:00.000Z'' True,
       DELETE_completed True] (initial Missing)))
     = Response 200 True (Message ''Deleted 1 completed todos'')"
  by code_simp

section \<open>The invariant of the store\<close>

lemma session_run:
  "map todo_id (todos (fst (run session (initial Missing)))) = [2, 3, 4]
   \<and> nextId (fst (run session (initial Missing))) = 5
   \<and> issued (snd (run session (initial Missing))) = [1, 2, 3]
   \<and> map (\<lambda>st. map todo_id (todos st)) (stores session (initial Missing))
       = [ [1], [1, 2], [1, 2], [2], [2], [2, 3], [2, 3, 4] ]"
  by code_simp

text \<open>
  C7. After any sequence of requests handled from the empty initial state with
  \<open>nextId = 1\<close>, the ids of the todos in the store are pairwise distinct, each of them is
  below \<open>nextId\<close>, and \<open>nextId\<close> is strictly greater than every id issued during the run:
  every id answered with 201, and every id a todo had in any state of the run, also of
  todos deleted since and of todos whose create threw at its log line.
\<close>

theorem store_invariant:
  "distinct (map todo_id (todos (fst (run rs (initial f)))))
   \<and> (\<forall>t\<in>set (todos (fst (run rs (initial f)))). todo_id t < nextId (fst (run rs (initial f))))
   \<and> (\<forall>k\<in>set (issued (snd (run rs (initial f)))). k < nextId (fst (run rs (initial f))))
   \<and> (\<forall>st'\<in>set (stores rs (initial f)). \<forall>t\<in>set (todos st').
         todo_id t < nextId (fst (run rs (initial f))))"
  using inv_run [OF inv_initial, of rs f] inv_stores [OF inv_initial, of rs f]
  by (simp add: store_inv_def)

theorem store_invariant_witness:
  "map todo_id (todos (fst (run session (initial Missing)))) = [2, 3, 4]
   \<and> nextId (fst (run session (initial Missing))) = 5
   \<and> issued (snd (run session (initial Missing))) = [1, 2, 3]
   \<and> map (\<lambda>st. map todo_id (todos st)) (stores session (initial Missing))
       = [ [1], [1, 2], [1, 2], [2], [2], [2, 3], [2, 3, 4] ]
   \<and> distinct (map todo_id (todos (fst (run session (initial Missing)))))
   \<and> list_all (\<lambda>t. todo_id t < nextId (fst (run session (initial Missing))))
        (todos (fst (run session (initial Missing))))
   \<and> list_all (\<lambda>k. k < nextId (fst (run session (initial Missing))))
        (issued (snd (run session (initial Missing))))
   \<and> list_all (\<lambda>st'. list_all (\<lambda>t. todo_id t < nextId (fst (run session (initial Missing))))
        (todos st')) (stores session (initial Missing))"
  using store_invariant [of session Missing] session_run
  by (simp add: list_all_iff)

section \<open>Titles after an update\<close>

text \<open>
  C8 asks that no todo of the store ever has an empty title. The create handler refuses
  an empty title, the update handler does not: after creating a todo, a PUT with the body
  \<^verbatim>\<open>{"title": ""}\<close> answers 200 and leaves the todo with the empty title in the store.
\<close>

theorem put_todo_blank_title:
  "snd (run [POST_todo buy_milk ''2024-01-01T00:00:00.000Z'' ''2024-01-01T00:00:00.000Z'' True,
             PUT_todo ''1'' blank_title ''2024-01-02T00:00:00.000Z'' True] (initial Missing))
     = [Response 201 True (Data milk),
        Response 200 True (Data (milk\<lparr>title := JStr [], updatedAt := ''2024-01-02T00:00:00.000Z''\<rparr>))]
   \<and> todos (fst (run [POST_todo buy_milk ''2024-01-01T00:00:00.000Z'' ''2024-01-01T00:00:00.000Z'' True,
             PUT_todo ''1'' blank_title ''2024-01-02T00:00:00.000Z'' True] (initial Missing)))
     = [milk\<lparr>title := JStr [], updatedAt := ''2024-01-02T00:00:00.000Z''\<rparr>]"
  by code_simp

section \<open>Path parameters that are not numbers\<close>

text \<open>
  C9, as the code has it. When the path parameter has no integer in front, that is, when
  what is left of it after leading white space and one sign is empty or does not begin
  with a decimal digit, or begins with \<^verbatim>\<open>0x\<close> or \<^verbatim>\<open>0X\<close> and no hexadecimal digit follows,
  \<^verbatim>\<open>parseInt\<close> gives \<^verbatim>\<open>NaN\<close>, which is the id of no todo: get, update, toggle and delete
  answer 404 with the message "Todo not found" and return the state they were given.
  By \<open>parseInt_NaN_iff\<close> these are all the parameters that parse to \<^verbatim>\<open>NaN\<close>.
\<close>

theorem no_leading_digit_not_found:
  assumes "let S = strip_sign s in
           if has_hex_prefix S then drop 2 S = [] \<or> \<not> radix_digit 16 (hd (drop 2 S))
           else S = [] \<or> \<not> radix_digit 10 (hd S)"
  shows "parseInt s = NaN
    \<and> get_todo s st = (st, Response 404 False (Message ''Todo not found''))
    \<and> put_todo s b now w st = (st, Response 404 False (Message ''Todo not found''))
    \<and> patch_toggle s now w st = (st, Response 404 False (Message ''Todo not found''))
    \<and> delete_todo s w st = (st, Response 404 False (Message ''Todo not found''))"
proof -
  have n: "parseInt s = NaN" using assms by (simp only: parseInt_NaN_iff)
  then have "\<forall>t\<in>set (todos st). Finite (todo_id t) \<noteq> parseInt s" by simp
  from no_match_handlers [OF this] n show ?thesis by (simp add: not_found_def)
qed

theorem no_leading_digit_not_found_witness:
  "strip_sign ''abc'' = ''abc'' \<and> \<not> has_hex_prefix ''abc'' \<and> \<not> radix_digit 10 (hd ''abc'')
   \<and> parseInt ''abc'' = NaN
   \<and> get_todo ''abc'' two_todos = (two_todos, Response 404 False (Message ''Todo not found''))
   \<and> put_todo ''abc'' set_completed ''2024-02-01T00:00:00.000Z'' True two_todos
        = (two_todos, Response 404 False (Message ''Todo not found''))
   \<and> patch_toggle ''abc'' ''2024-02-01T00:00:00.000Z'' True two_todos
        = (two_todos, Response 404 False (Message ''Todo not found''))
   \<and> delete_todo ''abc'' True two_todos
        = (two_todos, Response 404 False (Message ''Todo not found''))"
proof -
  have s: "strip_sign ''abc'' = ''abc''" by code_simp
  have x: "\<not> has_hex_prefix ''abc''" by code_simp
  have d: "\<not> radix_digit 10 (hd ''abc'')" by code_simp
  have h: "let S = strip_sign ''abc'' in
           if has_hex_prefix S then drop 2 S = [] \<or> \<not> radix_digit 16 (hd (drop 2 S))
           else S = [] \<or> \<not> radix_digit 10 (hd S)"
    using d x by (simp add: s Let_def)
  from no_leading_digit_not_found [OF h, where st = two_todos and b = set_completed
      and now = "''2024-02-01T00:00:00.000Z''" and w = True] s d x
  show ?thesis by simp
qed

text \<open>
  C9 as stated speaks of every parameter that is not numeric. \<^verbatim>\<open>1abc\<close> is not a string of
  digits, yet it parses to 1, and after one create the get handler answers 200 with
  todo 1.
\<close>

theorem non_numeric_id_found:
  "\<not> list_all (radix_digit 10) ''1abc''
   \<and> parseInt ''1abc'' = Finite 1
   \<and> snd (run [POST_todo buy_milk ''2024-01-01T00:00:00.000Z'' ''2024-01-01T00:00:00.000Z'' True,
               GET_todo ''1abc''] (initial Missing))
       = [Response 201 True (Data milk), Response 200 True (Data milk)]"
  by code_simp

text \<open>
  C10, as the code has it. When the path parameter is a non-empty run of decimal digits
  followed by a character that is not a decimal digit, does not begin with \<^verbatim>\<open>0x\<close> or
  \<^verbatim>\<open>0X\<close>, and the value of the digits is at most \<open>2^53\<close>, it parses to that value. If the
  todo at index \<open>i\<close> is the first with that id, the handlers act on it: get returns it,
  update and toggle replace it, delete removes it. Each of them answers 200 with the
  todo, unless the title it writes to its log is not \<open>printable\<close>; then it throws after
  having acted.
\<close>

theorem digit_prefix_id:
  assumes ne: "ds \<noteq> []" and ds: "\<forall>c\<in>set ds. radix_digit 10 c"
    and c: "\<not> radix_digit 10 c"
    and nohex: "\<not> (ds = ''0'' \<and> (c = CHR ''x'' \<or> c = CHR ''X''))"
    and small: "digits_value 10 ds \<le> 2 ^ 53"
    and i: "i < length (todos st)"
    and id: "todo_id (todos st ! i) = digits_value 10 ds"
    and first: "\<forall>j<i. todo_id (todos st ! j) \<noteq> digits_value 10 ds"
  shows "let s = ds @ c # rest;
             old = todos st ! i;
             patched = old
               \<lparr>title := (case body_title b of None \<Rightarrow> title old | Some v \<Rightarrow> v),
                description := (case body_description b of None \<Rightarrow> description old | Some v \<Rightarrow> v),
                completed := (case body_completed b of None \<Rightarrow> completed old | Some v \<Rightarrow> v),
                updatedAt := now\<rparr>;
             toggled = old\<lparr>completed := JBool (\<not> truthy (completed old)), updatedAt := now\<rparr>
         in parseInt s = Finite (digits_value 10 ds)
          \<and> get_todo s st
              = (st, if printable (title old) then Response 200 True (Data old) else Threw)
          \<and> todos (fst (put_todo s b now w st)) = (todos st)[i := patched]
          \<and> snd (put_todo s b now w st)
              = (if printable (title patched) then Response 200 True (Data patched) else Threw)
          \<and> todos (fst (patch_toggle s now w st)) = (todos st)[i := toggled]
          \<and> snd (patch_toggle s now w st)
              = (if printable (title old) then Response 200 True (Data toggled) else Threw)
          \<and> todos (fst (delete_todo s w st)) = take i (todos st) @ drop (Suc i) (todos st)
          \<and> snd (delete_todo s w st)
              = (if printable (title old) then Response 200 True (Data old) else Threw)"
proof -
  let ?s = "ds @ c # rest"
  have p: "parseInt ?s = Finite (digits_value 10 ds)"
    using ne ds c nohex small by (rule parseInt_digit_prefix)
  have fi: "findIndex (matches (parseInt ?s)) (todos st) = int i"
    using i id first by (intro findIndex_first) (auto simp: matches_def p)
  have fd: "find (matches (parseInt ?s)) (todos st) = Some (todos st ! i)"
    using i id first by (intro find_first) (auto simp: matches_def p)
  have g: "get_todo ?s st
      = (st, if printable (title (todos st ! i)) then Response 200 True (Data (todos st ! i))
             else Threw)"
    by (simp add: get_todo_def fd del: append.simps)
  show ?thesis
    unfolding Let_def
    apply (intro conjI)
           apply (rule p)
          apply (rule g)
         apply (simp add: put_todo_def fi Let_def)
        apply (simp add: put_todo_def fi Let_def)
       apply (simp add: patch_toggle_def fi Let_def)
      apply (simp add: patch_toggle_def fi Let_def toggle_respond_def i)
     apply (simp add: delete_todo_def fi Let_def splice1_def)
    apply (simp add: delete_todo_def fi Let_def)
    done
qed

theorem digit_prefix_id_witness:
  "list_all (radix_digit 10) ''2'' \<and> \<not> radix_digit 10 CHR ''a''
   \<and> digits_value 10 ''2'' = 2 \<and> (2::int) \<le> 2 ^ 53
   \<and> todo_id (todos two_todos ! 1) = 2
   \<and> todo_id (todos two_todos ! 0) \<noteq> 2
   \<and> parseInt ''2abc'' = Finite 2
   \<and> get_todo ''2abc'' two_todos = (two_todos, Response 200 True (Data dog))
   \<and> snd (put_todo ''2abc'' retitle ''2024-02-01T00:00:00.000Z'' True two_todos)
        = Response 200 True
            (Data (dog\<lparr>title := JStr ''Feed cat'', updatedAt := ''2024-02-01T00:00:00.000Z''\<rparr>))
   \<and> todos (fst (patch_toggle ''2abc'' ''2024-02-01T00:00:00.000Z'' True two_todos))
        = [milk, dog\<lparr>completed := JBool False, updatedAt := ''2024-02-01T00:00:00.000Z''\<rparr>]
   \<and> snd (patch_toggle ''2abc'' ''2024-02-01T00:00:00.000Z'' True two_todos)
        = Response 200 True
            (Data (dog\<lparr>completed := JBool False, updatedAt := ''2024-02-01T00:00:00.000Z''\<rparr>))
   \<and> snd (delete_todo ''2abc'' True two_todos) = Response 200 True (Data dog)
   \<and> todos (fst (delete_todo ''2abc'' True two_todos)) = [milk]"
proof -
  have h1: "''2'' \<noteq> []" by simp
  have h2: "\<forall>c\<in>set ''2''. radix_digit 10 c" by (simp add: radix_digit_def digit_value_def)
  have h3: "\<not> radix_digit 10 CHR ''a''" by (simp add: radix_digit_def digit_value_def)
  have h4: "\<not> (''2'' = ''0'' \<and> (CHR ''a'' = CHR ''x'' \<or> CHR ''a'' = CHR ''X''))" by simp
  have v: "digits_value 10 ''2'' = 2" by code_simp
  have h5: "digits_value 10 ''2'' \<le> 2 ^ 53" by (simp add: v)
  have h6: "1 < length (todos two_todos)" by (simp add: two_todos_def)
  have h7: "todo_id (todos two_todos ! 1) = digits_value 10 ''2''"
    by (simp add: v two_todos_def dog_def)
  have h8: "\<forall>j<1. todo_id (todos two_todos ! j) \<noteq> digits_value 10 ''2''"
    by (simp add: v two_todos_def milk_def)
  note inst = digit_prefix_id [OF h1 h2 h3 h4 h5 h6 h7 h8, where rest = "''bc''" and b = retitle
      and now = "''2024-02-01T00:00:00.000Z''" and w = True]
  have h8': "todo_id (todos two_todos ! 0) \<noteq> 2" using h8 by (simp add: v)
  have h7': "todo_id (todos two_todos ! 1) = 2" using h7 by (simp add: v)
  have h2': "list_all (radix_digit 10) ''2''" using h2 by (simp add: list_all_iff)
  have e: "todos two_todos ! 1 = dog" "todos two_todos = [milk, dog]" "completed dog = JBool True"
    "printable (title dog)" "body_title retitle = Some (JStr ''Feed cat'')"
    "body_description retitle = None" "body_completed retitle = None"
    by (simp_all add: two_todos_def dog_def retitle_def)
  from inst h2' h3 h7' h8' show ?thesis
    by (simp add: v e Let_def)
qed

text \<open>
  C10 as stated covers every digit prefix, every value and every todo. In \<^verbatim>\<open>0xf\<close> the decimal
  digits in front are \<^verbatim>\<open>0\<close>, of value 0, and no decimal digit follows, but \<^verbatim>\<open>parseInt\<close> reads
  the string as hexadecimal and gives 15: after fifteen creates, the get handler answers
  200 with todo 15, although no todo has the id 0. The digits of
  \<^verbatim>\<open>9007199254740993abc\<close> have the value \<open>2^53 + 1\<close>, which is not a double: the parameter
  parses to \<open>2^53\<close>. And when the title of todo 1 is the object \<^verbatim>\<open>{"toString": 1}\<close>, the get
  handler finds todo 1 for \<^verbatim>\<open>1abc\<close> and throws at its log line instead of answering 200.
\<close>

theorem hex_prefix_id:
  "list_all (radix_digit 10) ''0'' \<and> \<not> radix_digit 10 CHR ''x'' \<and> \<not> radix_digit 10 CHR ''f''
   \<and> digits_value 10 ''0'' = 0
   \<and> parseInt ''0xf'' = Finite 15
   \<and> (case last (snd (run
          (replicate 15 (POST_todo buy_milk ''2024-01-01T00:00:00.000Z''
                           ''2024-01-01T00:00:00.000Z'' True) @ [GET_todo ''0xf''])
          (initial Missing))) of
         Response code ok (Data t) \<Rightarrow> code = 200 \<and> todo_id t = 15
       | _ \<Rightarrow> False)
   \<and> list_all (\<lambda>t. todo_id t \<noteq> 0) (todos (fst (run
          (replicate 15 (POST_todo buy_milk ''2024-01-01T00:00:00.000Z''
                           ''2024-01-01T00:00:00.000Z'' True) @ [GET_todo ''0xf''])
          (initial Missing))))
   \<and> digits_value 10 ''9007199254740993'' = 9007199254740993
   \<and> parseInt ''9007199254740993abc'' = Finite 9007199254740992
   \<and> map todo_id (todos (fst (run
          [POST_todo odd_title ''2024-01-01T00:00:00.000Z'' ''2024-01-01T00:00:00.000Z'' True]
          (initial Missing)))) = [1]
   \<and> snd (run
          [POST_todo odd_title ''2024-01-01T00:00:00.000Z'' ''2024-01-01T00:00:00.000Z'' True,
           GET_todo ''1abc''] (initial Missing)) = [Threw, Threw]"
  by code_simp

end
